theory Spec2Isabelle
  imports Main "HOL-Library.Sublist" "HOL-Library.Word"
begin

unbundle bit_operations_syntax

section \<open>Package filter: the domain blacklist\<close>

text \<open>
  Go strings and byte slices are sequences of bytes: they are modelled as \<open>string\<close>
  (a list of 8-bit characters). Go's \<open>int\<close> is modelled as \<open>int\<close>; no counter of
  this package comes near the 64-bit range.
\<close>

record DomainEntry =
  Name :: string
  Hits :: int

record Filter =
  Domains :: "DomainEntry list"
  FileName :: string

subsection \<open>Standard-library string functions used by the package\<close>

text \<open>
  \<open>strings.ToLower\<close>: on a string of ASCII bytes only, Go maps \<open>A..Z\<close> to \<open>a..z\<close>
  byte by byte. On any other string it maps every rune through the Unicode tables; that
  path is the parameter \<open>uni\<close>.
\<close>

definition is_ascii :: "char \<Rightarrow> bool" where
  "is_ascii c = ((of_char c :: nat) < 128)"

definition ascii_lower :: "char \<Rightarrow> char" where
  "ascii_lower c =
     (if (65::nat) \<le> of_char c \<and> (of_char c :: nat) \<le> 90 then char_of ((of_char c :: nat) + 32) else c)"

definition ToLower :: "(string \<Rightarrow> string) \<Rightarrow> string \<Rightarrow> string" where
  "ToLower uni s = (if list_all is_ascii s then map ascii_lower s else uni s)"

text \<open>\<open>strings.Trim(s, " ")\<close>: strip the leading and the trailing spaces.\<close>

definition Trim_space :: "string \<Rightarrow> string" where
  "Trim_space s =
     rev (dropWhile (\<lambda>c. c = CHR '' '') (rev (dropWhile (\<lambda>c. c = CHR '' '') s)))"

text \<open>
  \<open>strings.Split(s, " ")\<close>: the fields between single spaces; a string with no space
  (the empty string too) gives one field.
\<close>

fun Split_space :: "string \<Rightarrow> string list" where
  "Split_space [] = [[]]"
| "Split_space (c # s) =
     (if c = CHR '' '' then [] # Split_space s
      else (case Split_space s of
              [] \<Rightarrow> [[c]]
            | f # fs \<Rightarrow> (c # f) # fs))"

subsection \<open>DomainEntry.Matches\<close>

definition DomainEntry_Matches :: "DomainEntry \<Rightarrow> string \<Rightarrow> bool" where
  "DomainEntry_Matches entry item =
     (let substr = int (length item) - int (length (Name entry)) in
      if substr < 0 then False
      else (let item' = drop (nat substr) item in
            if Name entry = item' then True else False))"

subsection \<open>Filter.Matches\<close>

text \<open>
  The loop \<open>for _, domainEntry := range ctx.Domains\<close> binds \<open>domainEntry\<close> to a copy of
  each element of the slice (\<open>Domains\<close> holds struct values, not pointers), so
  \<open>domainEntry.Hits++\<close> increments the copy. \<open>Matches_range\<close> is the loop: it returns the
  result together with the final value of the loop variable when the loop returns from
  inside; \<open>Filter_Matches\<close> returns the result and the filter as the call leaves it.
\<close>

fun Matches_range :: "(string \<Rightarrow> string) \<Rightarrow> DomainEntry list \<Rightarrow> string \<Rightarrow> bool \<times> DomainEntry option" where
  "Matches_range uni [] item = (False, None)"
| "Matches_range uni (domainEntry # rest) item =
     (if DomainEntry_Matches domainEntry (ToLower uni item)
      then (True, Some (domainEntry\<lparr>Hits := Hits domainEntry + 1\<rparr>))
      else Matches_range uni rest item)"

definition Filter_Matches :: "(string \<Rightarrow> string) \<Rightarrow> Filter \<Rightarrow> string \<Rightarrow> bool \<times> Filter" where
  "Filter_Matches uni ctx item = (fst (Matches_range uni (Domains ctx) item), ctx)"

subsection \<open>Filter.deduplicate\<close>

text \<open>
  The outer loop runs over \<open>ctx.Domains\<close> with \<open>later\<close> being \<open>ctx.Domains[i+1:]\<close>; the
  inner loop, which stops at the first match, is \<open>list_ex\<close>.
\<close>

fun deduplicate_range :: "DomainEntry list \<Rightarrow> DomainEntry list \<Rightarrow> DomainEntry list" where
  "deduplicate_range [] newlist = newlist"
| "deduplicate_range (domainEntry # later) newlist =
     (let add = \<not> list_ex (\<lambda>domainEntryCompare.
                    DomainEntry_Matches domainEntry (Name domainEntryCompare)) later
      in deduplicate_range later (if add then newlist @ [domainEntry] else newlist))"

definition deduplicate :: "Filter \<Rightarrow> Filter" where
  "deduplicate ctx = ctx\<lparr>Domains := deduplicate_range (Domains ctx) []\<rparr>"

subsection \<open>Files, HTTP and JSON: the environment\<close>

text \<open>
  What \<open>os.Open\<close>, \<open>Stat\<close> and \<open>Read\<close> do for a path, and what \<open>http.Get\<close> and
  \<open>ioutil.ReadAll\<close> do for a URL, is given by the environment: \<open>ReadOk data\<close> is the
  content of the buffer after a read without error. \<open>json.Unmarshal(data, &ctx.Domains)\<close>
  is a parameter \<open>unmarshal\<close>: from the data and the slice it is given, it returns the
  slice as it leaves it and whether it reports an error.
\<close>

datatype file_result = OpenError | StatError | ReadError | ReadOk string

datatype http_result = GetError | ReadAllError | Body string

subsection \<open>Filter.LoadFile\<close>

definition LoadFile ::
  "(string \<Rightarrow> DomainEntry list \<Rightarrow> DomainEntry list \<times> bool) \<Rightarrow> (string \<Rightarrow> file_result)
     \<Rightarrow> Filter \<Rightarrow> string \<Rightarrow> bool \<times> Filter" where
  "LoadFile unmarshal fs ctx file =
     (let ctx = ctx\<lparr>FileName := file\<rparr> in
      case fs file of
        OpenError \<Rightarrow> (False, ctx)
      | StatError \<Rightarrow> (False, ctx)
      | ReadError \<Rightarrow> (False, ctx)
      | ReadOk data \<Rightarrow>
          (case unmarshal data (Domains ctx) of
             (domains, err) \<Rightarrow>
               if err then (False, ctx\<lparr>Domains := domains\<rparr>)
               else (True, deduplicate (ctx\<lparr>Domains := domains\<rparr>))))"

subsection \<open>Filter.LoadListFile and Filter.LoadHTTP\<close>

text \<open>
  \<open>string(char)\<close> for a byte \<open>char\<close> is the UTF-8 encoding of the code point of that
  value: one byte below 128, two bytes from 128 on.
\<close>

definition string_of_byte :: "char \<Rightarrow> string" where
  "string_of_byte char =
     (if (of_char char :: nat) < 128 then [char]
      else [char_of (192 + (of_char char :: nat) div 64), char_of (128 + (of_char char :: nat) mod 64)])"

text \<open>
  The first loop of both functions, over the bytes read: it returns \<open>temp\<close>, \<open>list\<close> and
  \<open>count\<close> as they are when the loop ends.
\<close>

fun split_lines ::
  "(string \<Rightarrow> string) \<Rightarrow> string \<Rightarrow> string \<Rightarrow> string list \<Rightarrow> int \<Rightarrow> string \<times> string list \<times> int" where
  "split_lines uni [] temp list count = (temp, list, count)"
| "split_lines uni (char # data) temp list count =
     (if char \<noteq> CHR 0x0A \<and> char \<noteq> CHR 0x0D
      then split_lines uni data (temp @ string_of_byte char) list count
      else if length temp = 0 then split_lines uni data temp list count
      else (let temp = ToLower uni temp in
            if length temp > 0 then split_lines uni data [] (list @ [temp]) (count + 1)
            else split_lines uni data temp list count))"

text \<open>
  The second loop, over the lines. \<open>line[0]\<close> on an empty string is an index out of range:
  the Go runtime panics.
\<close>

datatype panic = IndexOutOfRange

fun parse_lines ::
  "(string \<Rightarrow> string) \<Rightarrow> string list \<Rightarrow> DomainEntry list \<Rightarrow> panic + DomainEntry list" where
  "parse_lines uni [] domains = Inr domains"
| "parse_lines uni (line # list) domains =
     (if length line = 0 then parse_lines uni list domains
      else (let line = ToLower uni (Trim_space line) in
            case line of
              [] \<Rightarrow> Inl IndexOutOfRange
            | c # _ \<Rightarrow>
                if c = CHR ''#'' then parse_lines uni list domains
                else (let elements = Split_space line;
                          line = (if length elements > 1 then last elements else line)
                      in parse_lines uni list (domains @ [\<lparr>Name = line, Hits = 0\<rparr>]))))"

text \<open>What both functions do with the bytes once they are read.\<close>

definition ingest_lines ::
  "(string \<Rightarrow> string) \<Rightarrow> Filter \<Rightarrow> string \<Rightarrow> panic + (bool \<times> int \<times> Filter)" where
  "ingest_lines uni ctx data =
     (case split_lines uni data [] [] 0 of
        (temp, list, count) \<Rightarrow>
          (case parse_lines uni list (Domains ctx) of
             Inl p \<Rightarrow> Inl p
           | Inr domains \<Rightarrow> Inr (True, count, deduplicate (ctx\<lparr>Domains := domains\<rparr>))))"

definition LoadListFile ::
  "(string \<Rightarrow> string) \<Rightarrow> (string \<Rightarrow> file_result) \<Rightarrow> Filter \<Rightarrow> string
     \<Rightarrow> panic + (bool \<times> int \<times> Filter)" where
  "LoadListFile uni fs ctx file =
     (case fs file of
        OpenError \<Rightarrow> Inr (False, 0, ctx)
      | StatError \<Rightarrow> Inr (False, 0, ctx)
      | ReadError \<Rightarrow> Inr (False, 0, ctx)
      | ReadOk data \<Rightarrow> ingest_lines uni ctx data)"

definition LoadHTTP ::
  "(string \<Rightarrow> string) \<Rightarrow> (string \<Rightarrow> http_result) \<Rightarrow> Filter \<Rightarrow> string
     \<Rightarrow> panic + (bool \<times> int \<times> Filter)" where
  "LoadHTTP uni http ctx url =
     (case http url of
        GetError \<Rightarrow> Inr (False, 0, ctx)
      | ReadAllError \<Rightarrow> Inr (False, 0, ctx)
      | Body body \<Rightarrow> ingest_lines uni ctx body)"

section \<open>Package socks5: the protocol engine\<close>

text \<open>
  Bytes on the wire are 8-bit words, and the strings of this package (host names, user
  names, passwords) are the lists of their bytes. \<open>state\<close>, \<open>store\<close> and \<open>Port\<close> are Go
  \<open>int\<close>s, modelled as \<open>int\<close>: \<open>store\<close> moves by one for each byte read, so it stays
  in the 64-bit range on every input shorter than \<open>2^63\<close> bytes. \<open>ReadCount\<close> is a
  \<open>uint64\<close>. Log messages are left out.
\<close>

type_synonym byte = "8 word"

datatype error =
    ReadFailed
  | WriteFailed
  | InvalidData nat
  | MethodNotSupported
  | AuthenticationFailed byte
  | CommandFailed byte
  | CredentialsTooLong
  | DialFailed

subsection \<open>Buffered readers and writers\<close>

text \<open>
  A \<open>bufio.Reader\<close> is the list of the bytes it will still deliver; \<open>ReadByte\<close> on the
  empty list is an error (the peer closed the connection, or the read failed). A
  \<open>bufio.Writer\<close> holds the bytes written and not yet flushed (always fewer than its
  buffer size here) and the bytes flushed to the transport; a flush that fails leaves
  the writer in error, and every later write or flush reports an error.
\<close>

record bufio_Writer =
  buffered :: "byte list"
  sent :: "byte list"
  transport_ok :: bool
  failed :: bool

definition Write :: "bufio_Writer \<Rightarrow> byte list \<Rightarrow> bufio_Writer \<times> error option" where
  "Write w p =
     (if failed w then (w, Some WriteFailed)
      else (w\<lparr>buffered := buffered w @ p\<rparr>, None))"

definition Flush :: "bufio_Writer \<Rightarrow> bufio_Writer \<times> error option" where
  "Flush w =
     (if failed w then (w, Some WriteFailed)
      else if buffered w = [] then (w, None)
      else if transport_ok w then (w\<lparr>buffered := [], sent := sent w @ buffered w\<rparr>, None)
      else (w\<lparr>failed := True\<rparr>, Some WriteFailed))"

text \<open>Successive writes, stopping at the first that reports an error.\<close>

fun Write_each :: "bufio_Writer \<Rightarrow> byte list list \<Rightarrow> bufio_Writer \<times> error option" where
  "Write_each w [] = (w, None)"
| "Write_each w (p # ps) =
     (case Write w p of
        (w', Some e) \<Rightarrow> (w', Some e)
      | (w', None) \<Rightarrow> Write_each w' ps)"

subsection \<open>The data of a session\<close>

record ProxyInfo =
  ProxyHost :: "byte list"
  ProxyPort :: int
  UseTLS :: bool
  Username :: "byte list"
  Password :: "byte list"

record Connection =
  Host :: "byte list"
  Port :: int
  Reader :: "byte list"
  Writer :: bufio_Writer
  ReadCount :: "64 word"
  Closed :: bool

record ClientCtx =
  Client :: Connection
  Remote :: Connection
  RequestData :: "byte list"
  Proxy :: ProxyInfo

subsection \<open>Connection.CopyData\<close>

text \<open>
  \<open>io.Copy\<close> is the standard library's: the outcomes \<open>(n, err)\<close> of its successive calls
  are given by the environment, \<open>n\<close> being the number of bytes that call has copied.
  \<open>CopyData\<close> returns the source connection \<open>other\<close> as the loop leaves it, and beside it
  the number of bytes that the calls made have copied in total; it is \<open>None\<close> when the
  outcomes given end before the loop returns.
\<close>

fun CopyData :: "(int \<times> error option) list \<Rightarrow> Connection \<Rightarrow> int \<Rightarrow> (Connection \<times> int) option" where
  "CopyData [] other copied = None"
| "CopyData ((n, err) # calls) other copied =
     (if err \<noteq> None \<or> n \<le> 0 then Some (other, copied + n)
      else CopyData calls (other\<lparr>ReadCount := ReadCount other + word_of_int n\<rparr>) (copied + n))"

subsection \<open>ClientCtx.processInbound\<close>

text \<open>\<open>strconv.Itoa\<close> on the value of one byte, and \<open>hex.EncodeToString\<close> on one byte.\<close>

definition digit :: "nat \<Rightarrow> byte" where
  "digit d = of_nat (48 + d)"

definition Itoa :: "nat \<Rightarrow> byte list" where
  "Itoa n =
     (if n < 10 then [digit n]
      else if n < 100 then [digit (n div 10), digit (n mod 10)]
      else [digit (n div 100), digit (n div 10 mod 10), digit (n mod 10)])"

definition hexdigit :: "nat \<Rightarrow> byte" where
  "hexdigit d = (if d < 10 then of_nat (48 + d) else of_nat (87 + d))"

definition hex_EncodeToString :: "byte \<Rightarrow> byte list" where
  "hex_EncodeToString b = [hexdigit (unat b div 16), hexdigit (unat b mod 16)]"

definition set_client_writer :: "ClientCtx \<Rightarrow> bufio_Writer \<Rightarrow> ClientCtx" where
  "set_client_writer ctx w = ctx\<lparr>Client := (Client ctx)\<lparr>Writer := w\<rparr>\<rparr>"

definition set_remote_writer :: "ClientCtx \<Rightarrow> bufio_Writer \<Rightarrow> ClientCtx" where
  "set_remote_writer ctx w = ctx\<lparr>Remote := (Remote ctx)\<lparr>Writer := w\<rparr>\<rparr>"

definition add_remote_host :: "ClientCtx \<Rightarrow> byte list \<Rightarrow> ClientCtx" where
  "add_remote_host ctx s = ctx\<lparr>Remote := (Remote ctx)\<lparr>Host := Host (Remote ctx) @ s\<rparr>\<rparr>"

definition add_request_data :: "ClientCtx \<Rightarrow> byte \<Rightarrow> ClientCtx" where
  "add_request_data ctx data = ctx\<lparr>RequestData := RequestData ctx @ [data]\<rparr>"

text \<open>
  State 3 of the inbound switch (state 2 falls through to it): answer that no
  authentication is required.
\<close>

definition inbound_case_3 :: "int \<Rightarrow> ClientCtx \<Rightarrow> int \<times> int \<times> error option \<times> ClientCtx" where
  "inbound_case_3 store ctx =
     (case Write (Writer (Client ctx)) [0x05, 0x00] of
        (w, Some e) \<Rightarrow> (13, store, Some e, set_client_writer ctx w)
      | (w, None) \<Rightarrow>
          (case Flush w of
             (w', Some e) \<Rightarrow> (13, store, Some e, set_client_writer ctx w')
           | (w', None) \<Rightarrow> (4, store, None, set_client_writer ctx w')))"

text \<open>
  One turn of the switch on the byte \<open>data\<close> just read: the new \<open>state\<close>, \<open>store\<close>, \<open>err\<close>
  and session.
\<close>

definition inbound_switch :: "int \<Rightarrow> int \<Rightarrow> byte \<Rightarrow> ClientCtx \<Rightarrow> int \<times> int \<times> error option \<times> ClientCtx" where
  "inbound_switch state store data ctx =
     (if state = 0 then
        (if data = 0x05 then (1, store, None, ctx) else (13, store, Some (InvalidData 0), ctx))
      else if state = 1 then
        (if data > 0 then (2, uint data, None, ctx) else (13, store, Some (InvalidData 1), ctx))
      else if state = 2 then
        (let store = store - 1 in
         if store > 0 then (2, store, None, ctx) else inbound_case_3 store ctx)
      else if state = 3 then inbound_case_3 store ctx
      else if state = 4 then
        (if data = 0x05 then (5, store, None, ctx) else (13, store, Some (InvalidData 4), ctx))
      else if state = 5 then
        (if data = 0x01 then (6, store, None, ctx) else (13, store, Some (InvalidData 5), ctx))
      else if state = 6 then (7, store, None, add_request_data ctx data)
      else if state = 7 then
        (let ctx = add_request_data ctx data;
             (store, state) = (if data = 0x01 then (4, 8) else (store, state));
             (store, state) = (if data = 0x03 then (0, 9) else (store, state));
             (store, state) = (if data = 0x04 then (16, 11) else (store, state))
         in (state, store, None, ctx))
      else if state = 8 then
        (let ctx = add_request_data ctx data;
             store = store - 1;
             ctx = add_remote_host ctx (Itoa (unat data))
         in if store = 0 then (12, 2, None, ctx)
            else (state, store, None, add_remote_host ctx [0x2E]))
      else if state = 9 then (10, uint data, None, add_request_data ctx data)
      else if state = 10 then
        (let ctx = add_request_data ctx data;
             store = store - 1;
             ctx = add_remote_host ctx [data]
         in if store = 0 then (12, 2, None, ctx) else (state, store, None, ctx))
      else if state = 11 then
        (let ctx = add_request_data ctx data;
             store = store - 1;
             ctx = add_remote_host ctx (hex_EncodeToString data);
             ctx = (if store > 0 \<and> store mod 2 = 0 then add_remote_host ctx [0x3A] else ctx)
         in if store = 0 then (12, 2, None, ctx) else (state, store, None, ctx))
      else if state = 12 then
        (let ctx = ctx\<lparr>Remote := (Remote ctx)\<lparr>Port := push_bit 8 (Port (Remote ctx)) + uint data\<rparr>\<rparr>;
             store = store - 1
         in if store = 0 then (13, store, None, ctx) else (state, store, None, ctx))
      else (state, store, None, ctx))"

text \<open>
  The loop \<open>for state < 13\<close>, reading one byte at each turn from the bytes the client's
  reader delivers; it returns \<open>err\<close>, the session and the bytes not read.
\<close>

fun inbound_loop ::
  "int \<Rightarrow> int \<Rightarrow> error option \<Rightarrow> ClientCtx \<Rightarrow> byte list \<Rightarrow> error option \<times> ClientCtx \<times> byte list" where
  "inbound_loop state store err ctx [] =
     (if state < 13 then (Some ReadFailed, ctx, []) else (err, ctx, []))"
| "inbound_loop state store err ctx (data # rest) =
     (if state < 13 then
        (case inbound_switch state store data ctx of
           (state', store', err', ctx') \<Rightarrow> inbound_loop state' store' err' ctx' rest)
      else (err, ctx, data # rest))"

definition processInbound :: "ClientCtx \<Rightarrow> error option \<times> ClientCtx" where
  "processInbound ctx =
     (case inbound_loop 0 0 None ctx (Reader (Client ctx)) of
        (err, ctx', rest) \<Rightarrow> (err, ctx'\<lparr>Client := (Client ctx')\<lparr>Reader := rest\<rparr>\<rparr>))"

subsection \<open>ClientCtx.processOutbound, relayed mode\<close>

text \<open>
  The reply \<open>05 01\<close>, \<open>RequestData\<close>, \<open>00 00\<close> that every failure path writes to the client;
  the results of these writes are not looked at.
\<close>

definition failure_reply :: "ClientCtx \<Rightarrow> ClientCtx" where
  "failure_reply ctx =
     (let w = fst (Write (Writer (Client ctx)) [0x05, 0x01]);
          w = fst (Write w (RequestData ctx));
          w = fst (Write w [0x00, 0x00]);
          w = fst (Flush w)
      in set_client_writer ctx w)"

definition close_remote :: "ClientCtx \<Rightarrow> ClientCtx" where
  "close_remote ctx = ctx\<lparr>Remote := (Remote ctx)\<lparr>Closed := True\<rparr>\<rparr>"

definition authType_of :: "ProxyInfo \<Rightarrow> byte" where
  "authType_of proxy =
     (if length (Username proxy) > 0 \<or> length (Password proxy) > 0 then 2 else 0)"

definition port_bytes :: "int \<Rightarrow> byte list" where
  "port_bytes port = [word_of_int (drop_bit 8 port AND 0xFF), word_of_int (port AND 0xFF)]"

text \<open>State 2 of the outbound switch (state 1 falls through to it).\<close>

definition outbound_case_2 ::
  "int \<Rightarrow> byte list \<Rightarrow> ClientCtx \<Rightarrow> int \<times> int \<times> byte list \<times> error option \<times> ClientCtx" where
  "outbound_case_2 store response ctx =
     (case Write_each (Writer (Remote ctx))
             [[0x01, of_nat (length (Username (Proxy ctx)))], Username (Proxy ctx),
              [of_nat (length (Password (Proxy ctx)))], Password (Proxy ctx)] of
        (w, Some e) \<Rightarrow> (15, store, response, Some e, set_remote_writer ctx w)
      | (w, None) \<Rightarrow>
          (case Flush w of
             (w', Some e) \<Rightarrow> (15, store, response, Some e, set_remote_writer ctx w')
           | (w', None) \<Rightarrow> (3, store, response, None, set_remote_writer ctx w')))"

text \<open>State 5 of the outbound switch (state 4 falls through to it).\<close>

definition outbound_case_5 ::
  "int \<Rightarrow> byte list \<Rightarrow> ClientCtx \<Rightarrow> int \<times> int \<times> byte list \<times> error option \<times> ClientCtx" where
  "outbound_case_5 store response ctx =
     (case Write_each (Writer (Remote ctx))
             [[0x05, 0x01], RequestData ctx, port_bytes (Port (Remote ctx))] of
        (w, Some e) \<Rightarrow> (15, store, response, Some e, set_remote_writer ctx w)
      | (w, None) \<Rightarrow>
          (case Flush w of
             (w', Some e) \<Rightarrow> (15, store, response, Some e, set_remote_writer ctx w')
           | (w', None) \<Rightarrow> (6, store, response, None, set_remote_writer ctx w')))"

definition outbound_switch ::
  "byte \<Rightarrow> int \<Rightarrow> int \<Rightarrow> byte list \<Rightarrow> byte \<Rightarrow> ClientCtx
     \<Rightarrow> int \<times> int \<times> byte list \<times> error option \<times> ClientCtx" where
  "outbound_switch authType state store response data ctx =
     (if state = 0 then
        (if data = 0x05 then (1, store, response, None, ctx)
         else (15, store, response, Some (InvalidData 0), ctx))
      else if state = 1 then
        (if data = authType then outbound_case_2 store response ctx
         else (15, store, response, Some MethodNotSupported, ctx))
      else if state = 2 then outbound_case_2 store response ctx
      else if state = 3 then
        (if data = 0x01 then (4, store, response, None, ctx)
         else (15, store, response, Some (InvalidData 3), ctx))
      else if state = 4 then
        (if data = 0x00 then outbound_case_5 store response ctx
         else (15, store, response, Some (AuthenticationFailed data), ctx))
      else if state = 5 then outbound_case_5 store response ctx
      else if state = 6 then
        (if data = 0x05 then (7, store, response, None, ctx)
         else (15, store, response, Some (InvalidData 6), ctx))
      else if state = 7 then
        (if data = 0x00 then (8, store, response, None, ctx)
         else (15, store, response, Some (CommandFailed data), ctx))
      else if state = 8 then (9, store, response @ [data], None, ctx)
      else if state = 9 then
        (let response = response @ [data];
             (store, state) = (if data = 0x01 then (4, 10) else (store, state));
             (store, state) = (if data = 0x03 then (0, 11) else (store, state));
             (store, state) = (if data = 0x04 then (16, 13) else (store, state))
         in (state, store, response, None, ctx))
      else if state = 10 \<or> state = 12 \<or> state = 13 then
        (let response = response @ [data];
             store = store - 1
         in if store = 0 then (14, 2, response, None, ctx) else (state, store, response, None, ctx))
      else if state = 11 then (12, uint data, response @ [data], None, ctx)
      else if state = 14 then
        (let response = response @ [data];
             store = store - 1
         in if store = 0 then (15, store, response, None, ctx) else (state, store, response, None, ctx))
      else (state, store, response, None, ctx))"

text \<open>The loop \<open>for state < 15\<close> over the bytes the upstream's reader delivers.\<close>

fun outbound_loop ::
  "byte \<Rightarrow> int \<Rightarrow> int \<Rightarrow> byte list \<Rightarrow> error option \<Rightarrow> ClientCtx \<Rightarrow> byte list
     \<Rightarrow> byte list \<times> error option \<times> ClientCtx \<times> byte list" where
  "outbound_loop authType state store response err ctx [] =
     (if state < 15 then (response, Some ReadFailed, ctx, []) else (response, err, ctx, []))"
| "outbound_loop authType state store response err ctx (data # rest) =
     (if state < 15 then
        (case outbound_switch authType state store response data ctx of
           (state', store', response', err', ctx') \<Rightarrow>
             outbound_loop authType state' store' response' err' ctx' rest)
      else (response, err, ctx, data # rest))"

text \<open>
  The relayed path of \<open>processOutbound\<close> (the pool is not empty): \<open>proxy\<close> is the
  descriptor that \<open>rand.Intn\<close> selected, and \<open>dial\<close> is what dialling it gives, an error
  or the new connection's reader and writer.
\<close>

definition processOutbound ::
  "ProxyInfo \<Rightarrow> (byte list \<times> bufio_Writer) option \<Rightarrow> ClientCtx \<Rightarrow> error option \<times> ClientCtx" where
  "processOutbound proxy dial ctx =
     (let ctx = ctx\<lparr>Proxy := proxy\<rparr> in
      if length (Username (Proxy ctx)) > 255 \<or> length (Password (Proxy ctx)) > 255
      then (Some CredentialsTooLong, failure_reply ctx)
      else
        (case dial of
           None \<Rightarrow> (Some DialFailed, failure_reply ctx)
         | Some (reader, writer) \<Rightarrow>
             (let ctx = ctx\<lparr>Remote := (Remote ctx)\<lparr>Reader := reader, Writer := writer\<rparr>\<rparr>;
                  authType = authType_of (Proxy ctx)
              in case Write (Writer (Remote ctx)) [0x05, 0x01, authType] of
                   (w, Some e) \<Rightarrow> (Some e, close_remote (failure_reply (set_remote_writer ctx w)))
                 | (w, None) \<Rightarrow>
                     (case Flush w of
                        (w', Some e) \<Rightarrow>
                          (Some e, close_remote (failure_reply (set_remote_writer ctx w')))
                      | (w', None) \<Rightarrow>
                          (case outbound_loop authType 0 0 [] None (set_remote_writer ctx w')
                                  (Reader (Remote ctx)) of
                             (response, err, ctx', rest) \<Rightarrow>
                               (let ctx' = ctx'\<lparr>Remote := (Remote ctx')\<lparr>Reader := rest\<rparr>\<rparr> in
                                if err = None then
                                  (let w = fst (Write (Writer (Client ctx')) [0x05, 0x00]);
                                       w = fst (Write w response);
                                       w = fst (Flush w)
                                   in (None, set_client_writer ctx' w))
                                else (err, close_remote (failure_reply ctx'))))))))"

section \<open>Sessions and predicates used in the statements\<close>

text \<open>
  The session as \<open>Listen\<close> creates it and \<open>processClient\<close> equips it: a reader over the
  bytes the client sends, an empty writer on a working transport, and Go's zero value in
  every other field.
\<close>

definition new_Writer :: bufio_Writer where
  "new_Writer = \<lparr>buffered = [], sent = [], transport_ok = True, failed = False\<rparr>"

definition new_session :: "byte list \<Rightarrow> ClientCtx" where
  "new_session input =
     \<lparr>Client = \<lparr>Host = [], Port = 0, Reader = input, Writer = new_Writer, ReadCount = 0,
                Closed = False\<rparr>,
      Remote = \<lparr>Host = [], Port = 0, Reader = [], Writer = new_Writer, ReadCount = 0,
                Closed = False\<rparr>,
      RequestData = [],
      Proxy = \<lparr>ProxyHost = [], ProxyPort = 0, UseTLS = False, Username = [], Password = []\<rparr>\<rparr>"

text \<open>
  A session after the inbound parse of a CONNECT request for the IPv4 address
  198.51.100.9, port 443.
\<close>

definition relay_session :: ClientCtx where
  "relay_session =
     (new_session [])\<lparr>RequestData := [0x00, 0x01, 198, 51, 100, 9],
        Remote := \<lparr>Host = [], Port = 443, Reader = [], Writer = new_Writer, ReadCount = 0,
                   Closed = False\<rparr>\<rparr>"

text \<open>
  The address field of a CONNECT request in wire form (RFC 1928): four bytes for IPv4,
  sixteen for IPv6, and for a domain name a length byte, not zero, followed by that many
  bytes.
\<close>

definition wellformed_address :: "byte \<Rightarrow> byte list \<Rightarrow> bool" where
  "wellformed_address atyp addr =
     (if atyp = 0x01 then length addr = 4
      else if atyp = 0x03 then
        (case addr of [] \<Rightarrow> False | len # name \<Rightarrow> len \<noteq> 0 \<and> length name = unat len)
      else if atyp = 0x04 then length addr = 16
      else False)"

text \<open>
  \<open>same_but_host ctx xs ctx'\<close>: from \<open>ctx\<close> to \<open>ctx'\<close> the bytes \<open>xs\<close> were added to
  \<open>RequestData\<close>, and the port and the client connection are the same.
\<close>

definition same_but_host :: "ClientCtx \<Rightarrow> byte list \<Rightarrow> ClientCtx \<Rightarrow> bool" where
  "same_but_host ctx xs ctx' \<longleftrightarrow>
     RequestData ctx' = RequestData ctx @ xs \<and> Port (Remote ctx') = Port (Remote ctx)
     \<and> Client ctx' = Client ctx"

text \<open>The entry at index \<open>i\<close> matches the name of an entry at a later index.\<close>

definition matches_later :: "DomainEntry list \<Rightarrow> nat \<Rightarrow> bool" where
  "matches_later ds i =
     list_ex (\<lambda>j. DomainEntry_Matches (ds ! i) (Name (ds ! j))) [Suc i..<length ds]"

text \<open>
  \<open>LoadFile\<close> fails: the file cannot be opened, inspected or read, or \<open>json.Unmarshal\<close>
  reports an error.
\<close>

definition LoadFile_fails ::
  "(string \<Rightarrow> DomainEntry list \<Rightarrow> DomainEntry list \<times> bool) \<Rightarrow> (string \<Rightarrow> file_result)
     \<Rightarrow> Filter \<Rightarrow> string \<Rightarrow> bool" where
  "LoadFile_fails unmarshal fs ctx file =
     (case fs file of
        ReadOk data \<Rightarrow> snd (unmarshal data (Domains ctx))
      | _ \<Rightarrow> True)"

section \<open>The suffix rule\<close>

lemmas char_eval = is_ascii_def ascii_lower_def char_of_def bit_Suc_0_iff

lemma DomainEntry_Matches_iff:
  "DomainEntry_Matches e q \<longleftrightarrow>
     length (Name e) \<le> length q \<and> drop (length q - length (Name e)) q = Name e"
  by (auto simp: DomainEntry_Matches_def Let_def nat_diff_distrib')

lemma DomainEntry_Matches_suffix: "DomainEntry_Matches e q \<longleftrightarrow> suffix (Name e) q"
proof
  assume "DomainEntry_Matches e q"
  then have "drop (length q - length (Name e)) q = Name e"
    by (simp add: DomainEntry_Matches_iff)
  then show "suffix (Name e) q"
    by (metis suffix_drop)
next
  assume "suffix (Name e) q"
  then obtain p where q: "q = p @ Name e"
    by (auto simp: suffix_def)
  then show "DomainEntry_Matches e q"
    by (simp add: DomainEntry_Matches_iff)
qed

lemma Matches_range_iff:
  "fst (Matches_range uni ds item) \<longleftrightarrow>
     list_ex (\<lambda>e. DomainEntry_Matches e (ToLower uni item)) ds"
  by (induction ds) auto

text \<open>
  C1. An entry with name \<open>n\<close> matches a query \<open>q\<close> iff \<open>q\<close> is at least as long as \<open>n\<close>
  and the last \<open>length n\<close> bytes of \<open>q\<close> are \<open>n\<close> (that is, \<open>n\<close> is a suffix of \<open>q\<close>); and
  \<open>Filter.Matches\<close> on a host \<open>h\<close> returns true iff some stored entry matches the
  lowercased \<open>h\<close> under this rule. There is no dot-boundary check: the entry
  \<open>badhost.com\<close> matches the query \<open>xbadhost.com\<close>.
\<close>

theorem suffix_match_rule:
  "(DomainEntry_Matches \<lparr>Name = n, Hits = k\<rparr> q \<longleftrightarrow>
      length n \<le> length q \<and> drop (length q - length n) q = n)
   \<and> (DomainEntry_Matches \<lparr>Name = n, Hits = k\<rparr> q \<longleftrightarrow> suffix n q)
   \<and> (fst (Filter_Matches uni ctx h) \<longleftrightarrow>
        (\<exists>e \<in> set (Domains ctx).
           length (Name e) \<le> length (ToLower uni h)
           \<and> drop (length (ToLower uni h) - length (Name e)) (ToLower uni h) = Name e))
   \<and> DomainEntry_Matches \<lparr>Name = ''badhost.com'', Hits = k\<rparr> ''xbadhost.com''"
proof -
  have a: "DomainEntry_Matches \<lparr>Name = n, Hits = k\<rparr> q \<longleftrightarrow>
      length n \<le> length q \<and> drop (length q - length n) q = n"
    by (simp add: DomainEntry_Matches_iff)
  have b: "DomainEntry_Matches \<lparr>Name = n, Hits = k\<rparr> q \<longleftrightarrow> suffix n q"
    by (simp add: DomainEntry_Matches_suffix)
  have c: "fst (Filter_Matches uni ctx h) \<longleftrightarrow>
        (\<exists>e \<in> set (Domains ctx).
           length (Name e) \<le> length (ToLower uni h)
           \<and> drop (length (ToLower uni h) - length (Name e)) (ToLower uni h) = Name e)"
    by (simp add: Filter_Matches_def Matches_range_iff list_ex_iff DomainEntry_Matches_iff)
  have d: "DomainEntry_Matches \<lparr>Name = ''badhost.com'', Hits = k\<rparr> ''xbadhost.com''"
    by (simp add: DomainEntry_Matches_iff)
  from a b c d show ?thesis by blast
qed

theorem suffix_match_rule_witness:
  "fst (Filter_Matches (\<lambda>s. s)
          \<lparr>Domains = [\<lparr>Name = ''a.org'', Hits = 0\<rparr>, \<lparr>Name = ''badhost.com'', Hits = 0\<rparr>],
           FileName = ''blacklist.json''\<rparr>
          ''xBadHost.COM'')
   \<and> \<not> fst (Filter_Matches (\<lambda>s. s)
          \<lparr>Domains = [\<lparr>Name = ''a.org'', Hits = 0\<rparr>, \<lparr>Name = ''badhost.com'', Hits = 0\<rparr>],
           FileName = ''blacklist.json''\<rparr>
          ''host.com'')"
  using suffix_match_rule [of "''a.org''" 0 "''x''" "\<lambda>s. s"
      "\<lparr>Domains = [\<lparr>Name = ''a.org'', Hits = 0\<rparr>, \<lparr>Name = ''badhost.com'', Hits = 0\<rparr>],
        FileName = ''blacklist.json''\<rparr>" "''xBadHost.COM''"]
    suffix_match_rule [of "''a.org''" 0 "''x''" "\<lambda>s. s"
      "\<lparr>Domains = [\<lparr>Name = ''a.org'', Hits = 0\<rparr>, \<lparr>Name = ''badhost.com'', Hits = 0\<rparr>],
        FileName = ''blacklist.json''\<rparr>" "''host.com''"]
  by (simp add: ToLower_def char_eval)

section \<open>The hit counter\<close>

text \<open>
  C2. A lookup that matches is to increment the \<open>Hits\<close> counter of the first matching
  entry in the stored sequence and return true. \<open>Filter.Matches\<close> returns true at the
  first match, but it increments the loop variable, a copy of the entry: the filter is,
  after every call, what it was before. With the single entry \<open>badhost.com\<close> and the
  query \<open>badhost.com\<close>, the stored counter is still 0 while the copy holds 1.
\<close>

theorem Filter_Matches_Hits_not_stored:
  "snd (Filter_Matches uni ctx item) = ctx
   \<and> Filter_Matches (\<lambda>s. s)
         \<lparr>Domains = [\<lparr>Name = ''badhost.com'', Hits = 0\<rparr>], FileName = ''''\<rparr> ''badhost.com''
       = (True, \<lparr>Domains = [\<lparr>Name = ''badhost.com'', Hits = 0\<rparr>], FileName = ''''\<rparr>)
   \<and> Matches_range (\<lambda>s. s) [\<lparr>Name = ''badhost.com'', Hits = 0\<rparr>] ''badhost.com''
       = (True, Some \<lparr>Name = ''badhost.com'', Hits = 1\<rparr>)"
  by (simp add: Filter_Matches_def DomainEntry_Matches_def ToLower_def char_eval)

section \<open>Deduplication\<close>

lemma matches_later_iff:
  "matches_later ds i \<longleftrightarrow>
     (\<exists>j. i < j \<and> j < length ds \<and> DomainEntry_Matches (ds ! i) (Name (ds ! j)))"
  by (force simp: matches_later_def list_ex_iff Suc_le_eq)

lemma matches_later_0:
  "matches_later (d # ds) 0 \<longleftrightarrow> list_ex (\<lambda>c. DomainEntry_Matches d (Name c)) ds"
proof
  assume "matches_later (d # ds) 0"
  then obtain j where j: "0 < j" "j < length (d # ds)"
      "DomainEntry_Matches d (Name ((d # ds) ! j))"
    by (auto simp: matches_later_iff)
  then obtain k where k: "j = Suc k"
    by (cases j) auto
  with j have "ds ! k \<in> set ds" "DomainEntry_Matches d (Name (ds ! k))"
    by auto
  then show "list_ex (\<lambda>c. DomainEntry_Matches d (Name c)) ds"
    unfolding list_ex_iff by blast
next
  assume "list_ex (\<lambda>c. DomainEntry_Matches d (Name c)) ds"
  then obtain k where k: "k < length ds" "DomainEntry_Matches d (Name (ds ! k))"
    by (auto simp: list_ex_iff in_set_conv_nth)
  then have "0 < Suc k \<and> Suc k < length (d # ds)
      \<and> DomainEntry_Matches ((d # ds) ! 0) (Name ((d # ds) ! Suc k))"
    by simp
  then show "matches_later (d # ds) 0"
    unfolding matches_later_iff by blast
qed

lemma matches_later_Suc: "matches_later (d # ds) (Suc i) \<longleftrightarrow> matches_later ds i"
proof
  assume "matches_later (d # ds) (Suc i)"
  then obtain j where j: "Suc i < j" "j < length (d # ds)"
      "DomainEntry_Matches ((d # ds) ! Suc i) (Name ((d # ds) ! j))"
    unfolding matches_later_iff by blast
  then obtain k where k: "j = Suc k"
    by (cases j) auto
  with j have "i < k \<and> k < length ds \<and> DomainEntry_Matches (ds ! i) (Name (ds ! k))"
    by simp
  then show "matches_later ds i"
    unfolding matches_later_iff by blast
next
  assume "matches_later ds i"
  then obtain k where k: "i < k" "k < length ds"
      "DomainEntry_Matches (ds ! i) (Name (ds ! k))"
    unfolding matches_later_iff by blast
  then have "Suc i < Suc k \<and> Suc k < length (d # ds)
      \<and> DomainEntry_Matches ((d # ds) ! Suc i) (Name ((d # ds) ! Suc k))"
    by simp
  then show "matches_later (d # ds) (Suc i)"
    unfolding matches_later_iff by blast
qed

lemma deduplicate_range_nths:
  "deduplicate_range ds newlist = newlist @ nths ds {i. \<not> matches_later ds i}"
proof (induction ds arbitrary: newlist)
  case Nil
  then show ?case by simp
next
  case (Cons d ds)
  show ?case
    by (simp add: Cons.IH nths_Cons matches_later_0 matches_later_Suc Let_def)
qed

lemma set_deduplicate_range: "set (deduplicate_range ds newlist) \<subseteq> set newlist \<union> set ds"
  by (simp add: deduplicate_range_nths) (use set_nths_subset in fastforce)

lemma deduplicate_range_append:
  "deduplicate_range ds newlist = newlist @ deduplicate_range ds []"
  by (simp add: deduplicate_range_nths)

lemma deduplicate_range_pairwise:
  "sorted_wrt (\<lambda>a b. \<not> DomainEntry_Matches a (Name b)) (deduplicate_range ds [])"
proof (induction ds)
  case Nil
  then show ?case by simp
next
  case (Cons d ds)
  have sub: "set (deduplicate_range ds []) \<subseteq> set ds"
    using set_deduplicate_range [of ds "[]"] by simp
  show ?case
  proof (cases "list_ex (\<lambda>c. DomainEntry_Matches d (Name c)) ds")
    case True
    then show ?thesis using Cons.IH by simp
  next
    case False
    then have "\<forall>c \<in> set (deduplicate_range ds []). \<not> DomainEntry_Matches d (Name c)"
      using sub by (auto simp: list_ex_iff)
    moreover have "deduplicate_range (d # ds) [] = d # deduplicate_range ds []"
      using False deduplicate_range_append [of ds "[d]"] by simp
    ultimately show ?thesis using Cons.IH by simp
  qed
qed

text \<open>
  C3. Deduplication drops the entry at index \<open>i\<close> iff the entry matches, under the suffix
  rule, the name of an entry at some index \<open>j > i\<close>: what is left is the sublist of the
  entries at the other indices, in their order (so of two equal names the later one
  stays). In the result no entry matches the name of an entry after it. The remembered
  path is not touched.
\<close>

theorem deduplicate_drops_earlier_matches:
  "Domains (deduplicate ctx) =
     nths (Domains ctx)
       {i. \<not> (\<exists>j. i < j \<and> j < length (Domains ctx)
                \<and> DomainEntry_Matches (Domains ctx ! i) (Name (Domains ctx ! j)))}
   \<and> (\<forall>i j. i < j \<and> j < length (Domains (deduplicate ctx)) \<longrightarrow>
         \<not> DomainEntry_Matches (Domains (deduplicate ctx) ! i)
              (Name (Domains (deduplicate ctx) ! j)))
   \<and> FileName (deduplicate ctx) = FileName ctx"
proof -
  have a: "Domains (deduplicate ctx) = nths (Domains ctx) {i. \<not> matches_later (Domains ctx) i}"
    by (simp add: deduplicate_def deduplicate_range_nths)
  have c: "\<forall>i j. i < j \<and> j < length (Domains (deduplicate ctx)) \<longrightarrow>
         \<not> DomainEntry_Matches (Domains (deduplicate ctx) ! i)
              (Name (Domains (deduplicate ctx) ! j))"
    using deduplicate_range_pairwise [of "Domains ctx"]
    by (simp add: deduplicate_def sorted_wrt_iff_nth_less)
  have d: "FileName (deduplicate ctx) = FileName ctx"
    by (simp add: deduplicate_def)
  from a c d show ?thesis
    by (simp add: matches_later_iff)
qed

theorem deduplicate_drops_earlier_matches_witness:
  "Domains (deduplicate
      \<lparr>Domains = [\<lparr>Name = ''a.com'', Hits = 3\<rparr>, \<lparr>Name = ''sub.a.com'', Hits = 0\<rparr>,
                  \<lparr>Name = ''b.com'', Hits = 1\<rparr>, \<lparr>Name = ''b.com'', Hits = 7\<rparr>],
       FileName = ''blacklist.json''\<rparr>)
     = [\<lparr>Name = ''sub.a.com'', Hits = 0\<rparr>, \<lparr>Name = ''b.com'', Hits = 7\<rparr>]
   \<and> \<not> DomainEntry_Matches \<lparr>Name = ''sub.a.com'', Hits = 0\<rparr> ''b.com''"
proof -
  let ?ctx = "\<lparr>Domains = [\<lparr>Name = ''a.com'', Hits = 3\<rparr>, \<lparr>Name = ''sub.a.com'', Hits = 0\<rparr>,
                  \<lparr>Name = ''b.com'', Hits = 1\<rparr>, \<lparr>Name = ''b.com'', Hits = 7\<rparr>],
       FileName = ''blacklist.json''\<rparr>"
  have res: "Domains (deduplicate ?ctx)
      = [\<lparr>Name = ''sub.a.com'', Hits = 0\<rparr>, \<lparr>Name = ''b.com'', Hits = 7\<rparr>]"
    by (simp add: deduplicate_def DomainEntry_Matches_def)
  have "(0::nat) < 1 \<and> 1 < length (Domains (deduplicate ?ctx))"
    by (simp add: res)
  then have "\<not> DomainEntry_Matches (Domains (deduplicate ?ctx) ! 0)
      (Name (Domains (deduplicate ?ctx) ! 1))"
    using deduplicate_drops_earlier_matches [of ?ctx] by blast
  then show ?thesis
    by (simp add: res)
qed

section \<open>The inbound parse\<close>

lemmas inbound_eval = processInbound_def inbound_switch_def inbound_case_3_def Write_def
  Flush_def set_client_writer_def add_request_data_def add_remote_host_def new_session_def
  new_Writer_def Let_def

lemma inbound_loop_done: "inbound_loop 13 store err ctx rest = (err, ctx, rest)"
  by (cases rest) simp_all

lemma switch_0_1:
  "inbound_switch 0 store 0x05 ctx = (1, store, None, ctx)"
  "data \<noteq> 0 \<Longrightarrow> inbound_switch 1 store data ctx = (2, uint data, None, ctx)"
  by (simp_all add: inbound_switch_def word_greater_zero_iff)

lemma switch_2_more: "1 < store \<Longrightarrow> inbound_switch 2 store data ctx = (2, store - 1, None, ctx)"
  by (simp add: inbound_switch_def Let_def)

lemma switch_2_last:
  "\<not> failed (Writer (Client ctx)) \<Longrightarrow> transport_ok (Writer (Client ctx)) \<Longrightarrow>
   inbound_switch 2 1 data ctx =
     (4, 0, None, set_client_writer ctx ((Writer (Client ctx))
        \<lparr>buffered := [],
          sent := sent (Writer (Client ctx)) @ buffered (Writer (Client ctx)) @ [0x05, 0x00]\<rparr>))"
  by (simp add: inbound_switch_def Let_def inbound_case_3_def Write_def Flush_def)

lemma switch_4_to_9:
  "inbound_switch 4 store 0x05 ctx = (5, store, None, ctx)"
  "inbound_switch 5 store 0x01 ctx = (6, store, None, ctx)"
  "inbound_switch 6 store data ctx = (7, store, None, add_request_data ctx data)"
  "inbound_switch 7 store 0x01 ctx = (8, 4, None, add_request_data ctx 0x01)"
  "inbound_switch 7 store 0x03 ctx = (9, 0, None, add_request_data ctx 0x03)"
  "inbound_switch 7 store 0x04 ctx = (11, 16, None, add_request_data ctx 0x04)"
  "inbound_switch 9 store data ctx = (10, uint data, None, add_request_data ctx data)"
  by (simp_all add: inbound_switch_def Let_def)

lemma switch_8:
  "inbound_switch 8 store data ctx =
     (if store = 1
      then (12, 2, None, add_remote_host (add_request_data ctx data) (Itoa (unat data)))
      else (8, store - 1, None,
            add_remote_host (add_remote_host (add_request_data ctx data) (Itoa (unat data)))
              [0x2E]))"
  by (simp add: inbound_switch_def Let_def)

lemma switch_10:
  "inbound_switch 10 store data ctx =
     (if store = 1 then (12, 2, None, add_remote_host (add_request_data ctx data) [data])
      else (10, store - 1, None, add_remote_host (add_request_data ctx data) [data]))"
  by (simp add: inbound_switch_def Let_def)

lemma switch_11:
  "inbound_switch 11 store data ctx =
     (if store = 1
      then (12, 2, None, add_remote_host (add_request_data ctx data) (hex_EncodeToString data))
      else (11, store - 1, None,
            (if store - 1 > 0 \<and> (store - 1) mod 2 = 0
             then add_remote_host
                    (add_remote_host (add_request_data ctx data) (hex_EncodeToString data))
                    [0x3A]
             else add_remote_host (add_request_data ctx data) (hex_EncodeToString data))))"
  by (simp add: inbound_switch_def Let_def)

lemma switch_12:
  "inbound_switch 12 store data ctx =
     (if store = 1 then 13 else 12, store - 1, None,
      ctx\<lparr>Remote := (Remote ctx)\<lparr>Port := push_bit 8 (Port (Remote ctx)) + uint data\<rparr>\<rparr>)"
  by (simp add: inbound_switch_def Let_def)

lemma same_but_host_trans:
  "same_but_host a xs b \<Longrightarrow> same_but_host b ys c \<Longrightarrow> same_but_host a (xs @ ys) c"
  by (simp add: same_but_host_def)

lemma same_but_host_add:
  "same_but_host ctx [x] (add_remote_host (add_request_data ctx x) h)"
  "same_but_host ctx [x] (add_remote_host (add_remote_host (add_request_data ctx x) h) h')"
  by (simp_all add: same_but_host_def add_remote_host_def add_request_data_def)

lemma same_but_host_request:
  "same_but_host (add_request_data (add_request_data ctx rsv) atyp) xs ctx' \<Longrightarrow>
   RequestData ctx' = RequestData ctx @ [rsv, atyp] @ xs
     \<and> Port (Remote ctx') = Port (Remote ctx) \<and> Client ctx' = Client ctx"
  by (simp add: same_but_host_def add_request_data_def)

lemma same_but_host_request_len:
  "same_but_host (add_request_data (add_request_data (add_request_data ctx rsv) atyp) len)
     xs ctx' \<Longrightarrow>
   RequestData ctx' = RequestData ctx @ [rsv, atyp] @ len # xs
     \<and> Port (Remote ctx') = Port (Remote ctx) \<and> Client ctx' = Client ctx"
  by (simp add: same_but_host_def add_request_data_def)

text \<open>The method bytes of the greeting: the last one is answered with \<open>05 00\<close>.\<close>

lemma inbound_methods:
  "ms \<noteq> [] \<Longrightarrow> \<not> failed (Writer (Client ctx)) \<Longrightarrow> transport_ok (Writer (Client ctx)) \<Longrightarrow>
   inbound_loop 2 (int (length ms)) err ctx (ms @ rest) =
   inbound_loop 4 0 None (set_client_writer ctx ((Writer (Client ctx))
        \<lparr>buffered := [],
          sent := sent (Writer (Client ctx)) @ buffered (Writer (Client ctx)) @ [0x05, 0x00]\<rparr>))
     rest"
proof (induction ms arbitrary: err)
  case Nil
  then show ?case by simp
next
  case (Cons m ms)
  show ?case
  proof (cases "ms = []")
    case True
    then show ?thesis
      using Cons.prems by (simp add: switch_2_last)
  next
    case False
    then have "1 < int (length (m # ms))"
      by (cases ms) auto
    then have "inbound_loop 2 (int (length (m # ms))) err ctx ((m # ms) @ rest)
        = inbound_loop 2 (int (length ms)) None ctx (ms @ rest)"
      by (simp add: switch_2_more)
    then show ?thesis
      using Cons.IH [OF False Cons.prems(2) Cons.prems(3)] by simp
  qed
qed

text \<open>
  A state that counts \<open>store\<close> down over the bytes of an address and goes to state 12 with
  \<open>store = 2\<close> at the last one.
\<close>

lemma address_phase:
  assumes step: "\<And>store data ctx. \<exists>ctx1. same_but_host ctx [data] ctx1
       \<and> inbound_switch s store data ctx
           = (if store = 1 then (12, 2, None, ctx1) else (s, store - 1, None, ctx1))"
    and s: "s < 13"
  shows "xs \<noteq> [] \<Longrightarrow>
    \<exists>ctx'. inbound_loop s (int (length xs)) err ctx (xs @ rest) = inbound_loop 12 2 None ctx' rest
       \<and> same_but_host ctx xs ctx'"
proof (induction xs arbitrary: err ctx)
  case Nil
  then show ?case by simp
next
  case (Cons x xs)
  obtain ctx1 where ctx1: "same_but_host ctx [x] ctx1"
    and sw: "inbound_switch s (int (length (x # xs))) x ctx
       = (if int (length (x # xs)) = 1 then (12, 2, None, ctx1)
          else (s, int (length (x # xs)) - 1, None, ctx1))"
    using step by blast
  show ?case
  proof (cases "xs = []")
    case True
    then have "inbound_loop s (int (length (x # xs))) err ctx ((x # xs) @ rest)
        = inbound_loop 12 2 None ctx1 rest"
      using sw s by simp
    then show ?thesis
      using ctx1 True by auto
  next
    case False
    then have "inbound_loop s (int (length (x # xs))) err ctx ((x # xs) @ rest)
       = inbound_loop s (int (length xs)) None ctx1 (xs @ rest)"
      using sw s by simp
    moreover obtain ctx' where
      "inbound_loop s (int (length xs)) None ctx1 (xs @ rest) = inbound_loop 12 2 None ctx' rest"
      and "same_but_host ctx1 xs ctx'"
      using Cons.IH [OF False] by blast
    ultimately show ?thesis
      using same_but_host_trans [OF ctx1] by fastforce
  qed
qed

lemma inbound_ipv4:
  "xs \<noteq> [] \<Longrightarrow>
    \<exists>ctx'. inbound_loop 8 (int (length xs)) err ctx (xs @ rest) = inbound_loop 12 2 None ctx' rest
       \<and> same_but_host ctx xs ctx'"
  by (rule address_phase) (auto simp: switch_8 same_but_host_add)

lemma inbound_domain:
  "xs \<noteq> [] \<Longrightarrow>
    \<exists>ctx'. inbound_loop 10 (int (length xs)) err ctx (xs @ rest) = inbound_loop 12 2 None ctx' rest
       \<and> same_but_host ctx xs ctx'"
  by (rule address_phase) (auto simp: switch_10 same_but_host_add)

lemma inbound_ipv6:
  "xs \<noteq> [] \<Longrightarrow>
    \<exists>ctx'. inbound_loop 11 (int (length xs)) err ctx (xs @ rest) = inbound_loop 12 2 None ctx' rest
       \<and> same_but_host ctx xs ctx'"
  by (rule address_phase) (auto simp: switch_11 same_but_host_add)

lemma and_255: "(x::int) AND 0xFF = x mod 256"
proof -
  have "(x::int) AND mask 8 = take_bit 8 x"
    by (simp only: take_bit_eq_mask)
  then show ?thesis
    by (simp add: take_bit_eq_mod mask_eq_exp_minus_1)
qed

lemma port_bytes_roundtrip: "port_bytes (256 * uint (p1 :: byte) + uint (p2 :: byte)) = [p1, p2]"
proof -
  have b: "0 \<le> uint p2" "uint p2 < 256" "0 \<le> uint p1" "uint p1 < 256"
    using uint_lt2p [of p2] uint_lt2p [of p1] by simp_all
  then have d: "drop_bit 8 (256 * uint p1 + uint p2) = uint p1"
    by (simp add: drop_bit_eq_div)
  have m1: "uint p1 mod 256 = uint p1" "uint p2 mod 256 = uint p2"
    using b by simp_all
  show ?thesis
    by (simp add: port_bytes_def d and_255 m1)
qed

text \<open>From state 4 on: the request, its address in wire form and the two port bytes.\<close>

lemma inbound_request:
  assumes wf: "wellformed_address atyp addr"
  shows "\<exists>ctx'. inbound_loop 4 store err ctx (0x05 # 0x01 # rsv # atyp # addr @ p1 # p2 # rest)
        = (None, ctx', rest)
     \<and> RequestData ctx' = RequestData ctx @ [rsv, atyp] @ addr
     \<and> Port (Remote ctx') = push_bit 8 (push_bit 8 (Port (Remote ctx)) + uint p1) + uint p2
     \<and> Client ctx' = Client ctx"
proof -
  let ?fin = "\<lambda>c. c\<lparr>Remote := (Remote c)
      \<lparr>Port := push_bit 8 (push_bit 8 (Port (Remote c)) + uint p1) + uint p2\<rparr>\<rparr>"
  let ?input = "0x05 # 0x01 # rsv # atyp # addr @ p1 # p2 # rest"
  have fin: "\<And>c. RequestData (?fin c) = RequestData c \<and> Client (?fin c) = Client c
      \<and> Port (Remote (?fin c)) = push_bit 8 (push_bit 8 (Port (Remote c)) + uint p1) + uint p2"
    by simp
  consider (v4) "atyp = 0x01" "length addr = 4"
    | (dom) len name where "atyp = 0x03" "addr = len # name" "len \<noteq> 0" "length name = unat len"
    | (v6) "atyp = 0x04" "length addr = 16"
    using wf by (auto simp: wellformed_address_def split: if_splits list.splits)
  then show ?thesis
  proof cases
    case v4
    then have ne: "addr \<noteq> []" by auto
    obtain c where c: "inbound_loop 8 (int (length addr)) None
          (add_request_data (add_request_data ctx rsv) atyp) (addr @ p1 # p2 # rest)
          = inbound_loop 12 2 None c (p1 # p2 # rest)"
       and sb: "same_but_host (add_request_data (add_request_data ctx rsv) atyp) addr c"
      using inbound_ipv4 [OF ne] by blast
    have "inbound_loop 4 store err ctx ?input = (None, ?fin c, rest)"
      using v4 c by (simp add: switch_4_to_9 switch_12 inbound_loop_done)
    then show ?thesis
      using same_but_host_request [OF sb] fin [of c] by (intro exI [of _ "?fin c"]) simp
  next
    case dom
    then have ne: "name \<noteq> []" by (auto simp: unat_eq_0)
    have len: "uint len = int (length name)"
      using dom by simp
    obtain c where c: "inbound_loop 10 (int (length name)) None
          (add_request_data (add_request_data (add_request_data ctx rsv) atyp) len)
          (name @ p1 # p2 # rest) = inbound_loop 12 2 None c (p1 # p2 # rest)"
       and sb: "same_but_host
          (add_request_data (add_request_data (add_request_data ctx rsv) atyp) len) name c"
      using inbound_domain [OF ne] by blast
    have "inbound_loop 4 store err ctx ?input = (None, ?fin c, rest)"
      using dom(1,2) c by (simp add: switch_4_to_9 switch_12 inbound_loop_done len)
    then show ?thesis
      using same_but_host_request_len [OF sb] fin [of c] dom(2)
      by (intro exI [of _ "?fin c"]) simp
  next
    case v6
    then have ne: "addr \<noteq> []" by auto
    obtain c where c: "inbound_loop 11 (int (length addr)) None
          (add_request_data (add_request_data ctx rsv) atyp) (addr @ p1 # p2 # rest)
          = inbound_loop 12 2 None c (p1 # p2 # rest)"
       and sb: "same_but_host (add_request_data (add_request_data ctx rsv) atyp) addr c"
      using inbound_ipv6 [OF ne] by blast
    have "inbound_loop 4 store err ctx ?input = (None, ?fin c, rest)"
      using v6 c by (simp add: switch_4_to_9 switch_12 inbound_loop_done)
    then show ?thesis
      using same_but_host_request [OF sb] fin [of c] by (intro exI [of _ "?fin c"]) simp
  qed
qed

text \<open>
  C4. On a session whose request data is empty and whose port is 0, with a client
  writer that works, the inbound parse of a well-formed exchange (greeting \<open>05\<close>,
  \<open>NMETHODS > 0\<close>, that many method bytes; request \<open>05 01 RSV ATYP\<close>, the address in wire
  form for ATYP 1, 3 or 4, two port bytes) ends without error and leaves in
  \<open>RequestData\<close> exactly \<open>RSV\<close>, \<open>ATYP\<close> and the address in wire form, without the port
  bytes; the port is the big-endian value of the two port bytes; the bytes after the
  request are left in the reader. So \<open>RequestData\<close> followed by the port as the outbound
  engine encodes it is the request without its version and command bytes.
\<close>

theorem processInbound_wellformed:
  assumes input: "Reader (Client ctx) =
        [0x05, nmethods] @ methods @ [0x05, 0x01, rsv, atyp] @ addr @ [p1, p2] @ rest"
    and methods: "nmethods \<noteq> 0" "length methods = unat nmethods"
    and addr: "wellformed_address atyp addr"
    and fresh: "RequestData ctx = []" "Port (Remote ctx) = 0"
    and writer: "\<not> failed (Writer (Client ctx))" "transport_ok (Writer (Client ctx))"
  shows "fst (processInbound ctx) = None
    \<and> RequestData (snd (processInbound ctx)) = [rsv, atyp] @ addr
    \<and> Port (Remote (snd (processInbound ctx))) = 256 * uint p1 + uint p2
    \<and> Reader (Client (snd (processInbound ctx))) = rest
    \<and> RequestData (snd (processInbound ctx))
         @ port_bytes (Port (Remote (snd (processInbound ctx))))
        = drop 2 ([0x05, 0x01, rsv, atyp] @ addr @ [p1, p2])"
proof -
  let ?w = "(Writer (Client ctx))
        \<lparr>buffered := [],
          sent := sent (Writer (Client ctx)) @ buffered (Writer (Client ctx)) @ [0x05, 0x00]\<rparr>"
  let ?c1 = "set_client_writer ctx ?w"
  let ?req = "0x05 # 0x01 # rsv # atyp # addr @ p1 # p2 # rest"
  have ne: "methods \<noteq> []"
    using methods by (auto simp: unat_eq_0)
  have len: "uint nmethods = int (length methods)"
    using methods by simp
  have "inbound_loop 0 0 None ctx (Reader (Client ctx))
      = inbound_loop 2 (int (length methods)) None ctx (methods @ ?req)"
    using methods(1) by (simp add: input switch_0_1 len)
  also have "\<dots> = inbound_loop 4 0 None ?c1 ?req"
    using inbound_methods [OF ne writer] by simp
  finally have start: "inbound_loop 0 0 None ctx (Reader (Client ctx))
      = inbound_loop 4 0 None ?c1 ?req" .
  obtain c where c: "inbound_loop 4 0 None ?c1 ?req = (None, c, rest)"
    and rd: "RequestData c = RequestData ?c1 @ [rsv, atyp] @ addr"
    and port: "Port (Remote c) = push_bit 8 (push_bit 8 (Port (Remote ?c1)) + uint p1) + uint p2"
    using inbound_request [OF addr] by blast
  have res: "processInbound ctx = (None, c\<lparr>Client := (Client c)\<lparr>Reader := rest\<rparr>\<rparr>)"
    unfolding processInbound_def start c by simp
  have rd': "RequestData c = [rsv, atyp] @ addr"
    using rd fresh by (simp add: set_client_writer_def)
  have port': "Port (Remote c) = 256 * uint p1 + uint p2"
    using port fresh by (simp add: set_client_writer_def push_bit_eq_mult)
  show ?thesis
    by (simp add: res rd' port' port_bytes_roundtrip)
qed

theorem processInbound_wellformed_witness:
  "fst (processInbound (new_session
        [0x05, 0x02, 0x00, 0x02, 0x05, 0x01, 0x00, 0x03, 0x03, 0x61, 0x2E, 0x62, 0x01, 0xBB, 0x47]))
     = None
   \<and> RequestData (snd (processInbound (new_session
        [0x05, 0x02, 0x00, 0x02, 0x05, 0x01, 0x00, 0x03, 0x03, 0x61, 0x2E, 0x62, 0x01, 0xBB, 0x47])))
     = [0x00, 0x03, 0x03, 0x61, 0x2E, 0x62]
   \<and> Port (Remote (snd (processInbound (new_session
        [0x05, 0x02, 0x00, 0x02, 0x05, 0x01, 0x00, 0x03, 0x03, 0x61, 0x2E, 0x62, 0x01, 0xBB, 0x47]))))
     = 443
   \<and> Reader (Client (snd (processInbound (new_session
        [0x05, 0x02, 0x00, 0x02, 0x05, 0x01, 0x00, 0x03, 0x03, 0x61, 0x2E, 0x62, 0x01, 0xBB, 0x47]))))
     = [0x47]"
  using processInbound_wellformed [of
      "new_session
        [0x05, 0x02, 0x00, 0x02, 0x05, 0x01, 0x00, 0x03, 0x03, 0x61, 0x2E, 0x62, 0x01, 0xBB, 0x47]"
      "0x02" "[0x00, 0x02]" "0x00" "0x03" "[0x03, 0x61, 0x2E, 0x62]" "0x01" "0xBB" "[0x47]"]
  by (simp add: new_session_def new_Writer_def wellformed_address_def)

text \<open>With \<open>store\<close> at 0 or below, state 10 never leaves: it reads until the reader fails.\<close>

lemma inbound_domain_stuck:
  "store \<le> 0 \<Longrightarrow> fst (inbound_loop 10 store err ctx xs) = Some ReadFailed"
proof (induction xs arbitrary: store err ctx)
  case Nil
  then show ?case by simp
next
  case (Cons x xs)
  have "inbound_switch 10 store x ctx
      = (10, store - 1, None, add_remote_host (add_request_data ctx x) [x])"
    using Cons.prems by (simp add: inbound_switch_def Let_def)
  then show ?case
    using Cons.IH [of "store - 1"] Cons.prems by simp
qed

text \<open>
  C9. A CONNECT request with a domain name of length 0 is to give an empty destination
  host, after which the parse reads the two port bytes and completes. \<open>processInbound\<close>
  decrements \<open>store\<close> from 0 before it compares it with 0, so it takes every byte that
  follows the length byte for a byte of the name: whatever follows, the parse ends with
  a read error and does not complete. On \<open>05 01 00\<close>, \<open>05 01 00 03 00 01 bb\<close> the two port
  bytes end in the host and in \<open>RequestData\<close>, and the port is still 0.
\<close>

theorem processInbound_empty_domain_never_completes:
  "fst (processInbound (new_session ([0x05, 0x01, 0x00, 0x05, 0x01, rsv, 0x03, 0x00] @ rest)))
     = Some ReadFailed
   \<and> Host (Remote (snd (processInbound (new_session
        [0x05, 0x01, 0x00, 0x05, 0x01, 0x00, 0x03, 0x00, 0x01, 0xBB])))) = [0x01, 0xBB]
   \<and> RequestData (snd (processInbound (new_session
        [0x05, 0x01, 0x00, 0x05, 0x01, 0x00, 0x03, 0x00, 0x01, 0xBB])))
       = [0x00, 0x03, 0x00, 0x01, 0xBB]
   \<and> Port (Remote (snd (processInbound (new_session
        [0x05, 0x01, 0x00, 0x05, 0x01, 0x00, 0x03, 0x00, 0x01, 0xBB])))) = 0"
proof -
  let ?input = "[0x05, 0x01, 0x00, 0x05, 0x01, rsv, 0x03, 0x00] @ rest"
  have "inbound_loop 0 0 None (new_session ?input) ?input
      = inbound_loop 10 0 None (add_request_data (add_request_data (add_request_data
          (set_client_writer (new_session ?input) (new_Writer\<lparr>sent := [0x05, 0x00]\<rparr>))
            rsv) 0x03) 0x00) rest"
    by (simp add: inbound_switch_def inbound_case_3_def Write_def Flush_def new_session_def
        new_Writer_def set_client_writer_def Let_def)
  then have a: "fst (processInbound (new_session ?input)) = Some ReadFailed"
    by (simp add: processInbound_def new_session_def split_def inbound_domain_stuck)
  have b: "Host (Remote (snd (processInbound (new_session
        [0x05, 0x01, 0x00, 0x05, 0x01, 0x00, 0x03, 0x00, 0x01, 0xBB])))) = [0x01, 0xBB]"
    by (simp add: inbound_eval)
  have c: "RequestData (snd (processInbound (new_session
        [0x05, 0x01, 0x00, 0x05, 0x01, 0x00, 0x03, 0x00, 0x01, 0xBB])))
       = [0x00, 0x03, 0x00, 0x01, 0xBB]"
    by (simp add: inbound_eval)
  have d: "Port (Remote (snd (processInbound (new_session
        [0x05, 0x01, 0x00, 0x05, 0x01, 0x00, 0x03, 0x00, 0x01, 0xBB])))) = 0"
    by (simp add: inbound_eval)
  from a b c d show ?thesis by blast
qed

section \<open>The upstream handshake\<close>

lemmas outbound_eval = processOutbound_def outbound_switch_def outbound_case_2_def
  outbound_case_5_def failure_reply_def close_remote_def authType_of_def port_bytes_def
  Write_def Flush_def set_client_writer_def set_remote_writer_def new_session_def
  new_Writer_def relay_session_def Let_def

text \<open>
  C5. \<open>authType\<close> is 2 iff the user name or the password of the selected descriptor is
  not empty, and 0 otherwise; that part holds. With \<open>authType = 0\<close> and an upstream that
  selects method 0, the engine is to send no user/password message and to send the
  CONNECT request at once. \<open>processOutbound\<close> falls from state 1 into state 2 whatever
  \<open>authType\<close> is: with empty credentials it sends \<open>01 00 00\<close> after the greeting and waits
  for a sub-negotiation reply. Against an upstream that answers \<open>05 00\<close> and waits for the
  request, it ends with a read error, and against one that goes on with a CONNECT reply
  it ends with "invalid data(3)"; in both runs the bytes sent upstream are
  \<open>05 01 00 01 00 00\<close> and no CONNECT request.
\<close>

theorem processOutbound_no_auth_sends_userpass:
  "authType_of proxy = (if Username proxy = [] \<and> Password proxy = [] then 0x00 else 0x02)
   \<and> fst (processOutbound
         \<lparr>ProxyHost = [], ProxyPort = 1080, UseTLS = False, Username = [], Password = []\<rparr>
         (Some ([0x05, 0x00], new_Writer)) relay_session) = Some ReadFailed
   \<and> sent (Writer (Remote (snd (processOutbound
         \<lparr>ProxyHost = [], ProxyPort = 1080, UseTLS = False, Username = [], Password = []\<rparr>
         (Some ([0x05, 0x00], new_Writer)) relay_session))))
       = [0x05, 0x01, 0x00, 0x01, 0x00, 0x00]
   \<and> fst (processOutbound
         \<lparr>ProxyHost = [], ProxyPort = 1080, UseTLS = False, Username = [], Password = []\<rparr>
         (Some ([0x05, 0x00, 0x05, 0x00, 0x00, 0x01, 0xC6, 0x33, 0x64, 0x09, 0x01, 0xBB],
                new_Writer)) relay_session) = Some (InvalidData 3)
   \<and> sent (Writer (Remote (snd (processOutbound
         \<lparr>ProxyHost = [], ProxyPort = 1080, UseTLS = False, Username = [], Password = []\<rparr>
         (Some ([0x05, 0x00, 0x05, 0x00, 0x00, 0x01, 0xC6, 0x33, 0x64, 0x09, 0x01, 0xBB],
                new_Writer)) relay_session))))
       = [0x05, 0x01, 0x00, 0x01, 0x00, 0x00]"
proof -
  have a: "authType_of proxy
      = (if Username proxy = [] \<and> Password proxy = [] then 0x00 else 0x02)"
    by (simp add: authType_of_def)
  have c: "fst (processOutbound
         \<lparr>ProxyHost = [], ProxyPort = 1080, UseTLS = False, Username = [], Password = []\<rparr>
         (Some ([0x05, 0x00], new_Writer)) relay_session) = Some ReadFailed"
    by (simp add: outbound_eval)
  have d: "sent (Writer (Remote (snd (processOutbound
         \<lparr>ProxyHost = [], ProxyPort = 1080, UseTLS = False, Username = [], Password = []\<rparr>
         (Some ([0x05, 0x00], new_Writer)) relay_session))))
       = [0x05, 0x01, 0x00, 0x01, 0x00, 0x00]"
    by (simp add: outbound_eval)
  have e: "fst (processOutbound
         \<lparr>ProxyHost = [], ProxyPort = 1080, UseTLS = False, Username = [], Password = []\<rparr>
         (Some ([0x05, 0x00, 0x05, 0x00, 0x00, 0x01, 0xC6, 0x33, 0x64, 0x09, 0x01, 0xBB],
                new_Writer)) relay_session) = Some (InvalidData 3)"
    by (simp add: outbound_eval)
  have f: "sent (Writer (Remote (snd (processOutbound
         \<lparr>ProxyHost = [], ProxyPort = 1080, UseTLS = False, Username = [], Password = []\<rparr>
         (Some ([0x05, 0x00, 0x05, 0x00, 0x00, 0x01, 0xC6, 0x33, 0x64, 0x09, 0x01, 0xBB],
                new_Writer)) relay_session))))
       = [0x05, 0x01, 0x00, 0x01, 0x00, 0x00]"
    by (simp add: outbound_eval)
  from a c d e f show ?thesis by blast
qed

section \<open>JSON ingest\<close>

text \<open>
  C6, as stated: if \<open>LoadFile\<close> fails, it returns false and leaves the filter, entries
  and remembered path, as it was. It does not: \<open>ctx.FileName = file\<close> is the first
  statement, before the file is opened, so a load of a missing \<open>blacklist.json\<close> into a
  filter that remembers no path returns false with the path remembered.
\<close>

theorem LoadFile_failure_sets_FileName:
  "\<not> (\<forall>unmarshal fs ctx file. LoadFile_fails unmarshal fs ctx file \<longrightarrow>
        LoadFile unmarshal fs ctx file = (False, ctx))"
proof
  assume a: "\<forall>unmarshal fs ctx file. LoadFile_fails unmarshal fs ctx file \<longrightarrow>
        LoadFile unmarshal fs ctx file = (False, ctx)"
  have "LoadFile_fails (\<lambda>data ds. (ds, False)) (\<lambda>p. OpenError)
      \<lparr>Domains = [], FileName = ''''\<rparr> ''blacklist.json''"
    by (simp add: LoadFile_fails_def)
  with a have "LoadFile (\<lambda>data ds. (ds, False)) (\<lambda>p. OpenError)
      \<lparr>Domains = [], FileName = ''''\<rparr> ''blacklist.json''
      = (False, \<lparr>Domains = [], FileName = ''''\<rparr>)"
    by blast
  then show False
    by (simp add: LoadFile_def)
qed

text \<open>
  C6, amended: if \<open>LoadFile\<close> fails, it returns false and the remembered path is the
  path it was called with; the entry sequence is what it was before the call when the
  file cannot be opened, inspected or read, and is what \<open>json.Unmarshal\<close> left in it when
  deserialization fails.
\<close>

theorem LoadFile_failure:
  assumes "LoadFile_fails unmarshal fs ctx file"
  shows "fst (LoadFile unmarshal fs ctx file) = False
    \<and> FileName (snd (LoadFile unmarshal fs ctx file)) = file
    \<and> Domains (snd (LoadFile unmarshal fs ctx file)) =
        (case fs file of
           ReadOk data \<Rightarrow> fst (unmarshal data (Domains ctx))
         | _ \<Rightarrow> Domains ctx)"
  using assms
  by (cases "fs file") (auto simp: LoadFile_def LoadFile_fails_def Let_def split: prod.splits)

theorem LoadFile_failure_witness:
  "LoadFile (\<lambda>data ds. (ds, False)) (\<lambda>p. OpenError)
       \<lparr>Domains = [\<lparr>Name = ''a.com'', Hits = 2\<rparr>], FileName = ''old.json''\<rparr> ''blacklist.json''
     = (False, \<lparr>Domains = [\<lparr>Name = ''a.com'', Hits = 2\<rparr>], FileName = ''blacklist.json''\<rparr>)
   \<and> LoadFile (\<lambda>data ds. ([], True)) (\<lambda>p. ReadOk ''[{'')
       \<lparr>Domains = [\<lparr>Name = ''a.com'', Hits = 2\<rparr>], FileName = ''old.json''\<rparr> ''blacklist.json''
     = (False, \<lparr>Domains = [], FileName = ''blacklist.json''\<rparr>)"
proof -
  let ?ctx = "\<lparr>Domains = [\<lparr>Name = ''a.com'', Hits = 2\<rparr>], FileName = ''old.json''\<rparr>"
  have f1: "LoadFile_fails (\<lambda>data ds. (ds, False)) (\<lambda>p. OpenError) ?ctx ''blacklist.json''"
    by (simp add: LoadFile_fails_def)
  have f2: "LoadFile_fails (\<lambda>data ds. ([], True)) (\<lambda>p. ReadOk ''[{'') ?ctx ''blacklist.json''"
    by (simp add: LoadFile_fails_def)
  show ?thesis
    using LoadFile_failure [OF f1] LoadFile_failure [OF f2]
    by (simp add: prod_eq_iff Filter.equality)
qed

section \<open>Line-format ingest\<close>

lemmas ingest_eval = LoadListFile_def LoadHTTP_def ingest_lines_def string_of_byte_def
  ToLower_def char_eval Trim_space_def deduplicate_def DomainEntry_Matches_def Let_def

text \<open>
  C7. Every non-empty segment of the input between LF or CR bytes is to give an entry
  (lowercased, trimmed, comments skipped, last field taken), the last segment too when
  no LF or CR ends it. The first loop of \<open>LoadListFile\<close> and \<open>LoadHTTP\<close> appends a segment
  to \<open>list\<close> only when it reads the LF or CR after it, and what is in \<open>temp\<close> when the
  bytes end is dropped: from \<open>a.com\<close>, LF, \<open>B.com\<close> only \<open>a.com\<close> is ingested, and with an LF
  at the end both are.
\<close>

theorem line_ingest_drops_unterminated_line:
  "LoadListFile (\<lambda>s. s) (\<lambda>p. ReadOk (''a.com'' @ [CHR 0x0A] @ ''B.com''))
       \<lparr>Domains = [], FileName = ''''\<rparr> ''list.txt''
     = Inr (True, 1, \<lparr>Domains = [\<lparr>Name = ''a.com'', Hits = 0\<rparr>], FileName = ''''\<rparr>)
   \<and> LoadHTTP (\<lambda>s. s) (\<lambda>u. Body (''a.com'' @ [CHR 0x0A] @ ''B.com''))
       \<lparr>Domains = [], FileName = ''''\<rparr> ''http://lists.example/hosts.txt''
     = Inr (True, 1, \<lparr>Domains = [\<lparr>Name = ''a.com'', Hits = 0\<rparr>], FileName = ''''\<rparr>)
   \<and> LoadListFile (\<lambda>s. s) (\<lambda>p. ReadOk (''a.com'' @ [CHR 0x0A] @ ''B.com'' @ [CHR 0x0A]))
       \<lparr>Domains = [], FileName = ''''\<rparr> ''list.txt''
     = Inr (True, 2,
         \<lparr>Domains = [\<lparr>Name = ''a.com'', Hits = 0\<rparr>, \<lparr>Name = ''b.com'', Hits = 0\<rparr>],
          FileName = ''''\<rparr>)"
  by (simp add: ingest_eval)

lemma split_lines_append:
  "split_lines uni (xs @ ys) temp list count =
     (case split_lines uni xs temp list count of (t, l, c) \<Rightarrow> split_lines uni ys t l c)"
  by (induction uni xs temp list count rule: split_lines.induct) (simp_all add: Let_def)

lemma split_lines_delimiter:
  "d = CHR 0x0A \<or> d = CHR 0x0D \<Longrightarrow> fst (split_lines uni [d] temp list count) = []"
  by (auto simp: Let_def)

lemma split_lines_after_delimiter:
  assumes "pre = [] \<or> last pre = CHR 0x0A \<or> last pre = CHR 0x0D"
  shows "fst (split_lines uni pre [] list count) = []"
proof (cases "pre = []")
  case True
  then show ?thesis by simp
next
  case False
  then obtain ys d where pre: "pre = ys @ [d]" and d: "d = CHR 0x0A \<or> d = CHR 0x0D"
    using assms by (metis append_butlast_last_id)
  obtain t l c where s: "split_lines uni ys [] list count = (t, l, c)"
    by (cases "split_lines uni ys [] list count") auto
  show ?thesis
    using split_lines_delimiter [OF d, of uni t l c] by (simp add: pre split_lines_append s)
qed

lemma split_lines_spaces:
  "split_lines uni (replicate n (CHR '' '')) temp list count
     = (temp @ replicate n (CHR '' ''), list, count)"
proof (induction n arbitrary: temp)
  case 0
  then show ?case by simp
next
  case (Suc n)
  have "temp @ CHR '' '' # replicate n CHR '' '' = (temp @ [CHR '' '']) @ replicate n CHR '' ''"
    by simp
  then show ?case
    using Suc.IH [of "temp @ [CHR '' '']"] by (simp add: string_of_byte_def del: append_assoc)
qed

lemma ToLower_spaces: "ToLower uni (replicate n (CHR '' '')) = replicate n (CHR '' '')"
  by (simp add: ToLower_def list_all_iff is_ascii_def ascii_lower_def)

lemma ToLower_Nil: "ToLower uni [] = []"
  by (simp add: ToLower_def)

lemma Trim_space_spaces: "Trim_space (replicate n (CHR '' '')) = []"
proof -
  have "dropWhile (\<lambda>c. c = CHR '' '') (replicate n (CHR '' '')) = []"
    by (simp add: dropWhile_eq_Nil_conv)
  then show ?thesis
    by (simp add: Trim_space_def)
qed

lemma split_lines_grows:
  "\<exists>more. fst (snd (split_lines uni data temp list count)) = list @ more"
proof (induction uni data temp list count rule: split_lines.induct)
  case (1 uni temp list count)
  then show ?case by simp
next
  case (2 uni char data temp list count)
  then show ?case
    by (auto simp: Let_def)
qed

lemma parse_lines_append:
  "parse_lines uni (xs @ ys) domains =
     (case parse_lines uni xs domains of Inl p \<Rightarrow> Inl p | Inr ds \<Rightarrow> parse_lines uni ys ds)"
  by (induction xs arbitrary: domains) (simp_all add: Let_def split: list.splits)

lemma parse_lines_spaces:
  "0 < n \<Longrightarrow> parse_lines uni (replicate n (CHR '' '') # list) domains = Inl IndexOutOfRange"
  by (simp add: Trim_space_spaces ToLower_Nil)

lemma parse_lines_panics:
  assumes "0 < n"
  shows "parse_lines uni (l1 @ replicate n (CHR '' '') # l2) domains = Inl IndexOutOfRange"
proof (cases "parse_lines uni l1 domains")
  case (Inl p)
  then show ?thesis
    by (cases p) (simp add: parse_lines_append)
next
  case (Inr ds)
  then show ?thesis
    using parse_lines_spaces [OF assms] by (simp add: parse_lines_append)
qed

lemma ingest_lines_panics:
  assumes pre: "pre = [] \<or> last pre = CHR 0x0A \<or> last pre = CHR 0x0D"
    and n: "0 < n"
    and d: "d = CHR 0x0A \<or> d = CHR 0x0D"
  shows "ingest_lines uni ctx (pre @ replicate n (CHR '' '') @ d # post) = Inl IndexOutOfRange"
proof -
  let ?sp = "replicate n (CHR '' '')"
  obtain t l c where s1: "split_lines uni pre [] [] 0 = (t, l, c)"
    by (cases "split_lines uni pre [] [] 0") auto
  have t: "t = []"
    using split_lines_after_delimiter [OF pre, of uni "[]" 0] s1 by simp
  have ne: "?sp \<noteq> []"
    using n by simp
  have s2: "split_lines uni (?sp @ d # post) [] l c = split_lines uni post [] (l @ [?sp]) (c + 1)"
    using d ne by (auto simp: split_lines_append split_lines_spaces ToLower_spaces)
  obtain more where more:
    "fst (snd (split_lines uni post [] (l @ [?sp]) (c + 1))) = (l @ [?sp]) @ more"
    using split_lines_grows by blast
  obtain t' l' c' where s3: "split_lines uni post [] (l @ [?sp]) (c + 1) = (t', l', c')"
    by (cases "split_lines uni post [] (l @ [?sp]) (c + 1)") auto
  have l': "l' = l @ ?sp # more"
    using more s3 by simp
  have "split_lines uni (pre @ ?sp @ d # post) [] [] 0 = (t', l', c')"
    using split_lines_append [of uni pre "?sp @ d # post" "[]" "[]" 0]
    by (simp add: s1 t s2 s3)
  then show ?thesis
    by (simp add: ingest_lines_def l' parse_lines_panics [OF n])
qed

text \<open>
  C10. Line-format ingest is not total: when the bytes read contain a line of one or
  more spaces and nothing else, ended by LF or CR (the line starts the input or follows
  an LF or CR), \<open>LoadListFile\<close> and \<open>LoadHTTP\<close> trim it to the empty string and index its
  first byte: the call panics with an index out of range, whatever the other lines and
  the filter are.
\<close>

theorem line_ingest_panics_on_blank_line:
  assumes "fs file = ReadOk (pre @ replicate n (CHR '' '') @ d # post)"
    and "http url = Body (pre @ replicate n (CHR '' '') @ d # post)"
    and "pre = [] \<or> last pre = CHR 0x0A \<or> last pre = CHR 0x0D"
    and "0 < n"
    and "d = CHR 0x0A \<or> d = CHR 0x0D"
  shows "LoadListFile uni fs ctx file = Inl IndexOutOfRange
    \<and> LoadHTTP uni http ctx url = Inl IndexOutOfRange"
  using assms(1,2) ingest_lines_panics [OF assms(3,4,5)]
  by (simp add: LoadListFile_def LoadHTTP_def)

theorem line_ingest_panics_on_blank_line_witness:
  "LoadListFile (\<lambda>s. s) (\<lambda>p. ReadOk (''a.com'' @ [CHR 0x0A] @ ''  '' @ [CHR 0x0A] @ ''b.com''))
       \<lparr>Domains = [], FileName = ''''\<rparr> ''list.txt'' = Inl IndexOutOfRange
   \<and> LoadHTTP (\<lambda>s. s) (\<lambda>u. Body (''a.com'' @ [CHR 0x0A] @ ''  '' @ [CHR 0x0A] @ ''b.com''))
       \<lparr>Domains = [], FileName = ''''\<rparr> ''http://lists.example/hosts.txt'' = Inl IndexOutOfRange"
  using line_ingest_panics_on_blank_line [of
      "\<lambda>p. ReadOk (''a.com'' @ [CHR 0x0A] @ ''  '' @ [CHR 0x0A] @ ''b.com'')" "''list.txt''"
      "''a.com'' @ [CHR 0x0A]" "Suc (Suc 0)" "CHR 0x0A" "''b.com''"
      "\<lambda>u. Body (''a.com'' @ [CHR 0x0A] @ ''  '' @ [CHR 0x0A] @ ''b.com'')"
      "''http://lists.example/hosts.txt''" "\<lambda>s. s" "\<lparr>Domains = [], FileName = ''''\<rparr>"]
  by simp

section \<open>The splice\<close>

text \<open>
  C8. A copy is to add to the source connection's \<open>ReadCount\<close> the number of bytes it
  has transferred, also when it ends with an error. \<open>CopyData\<close> returns when \<open>io.Copy\<close>
  reports an error, before it adds \<open>n\<close>: when the first call copies 5 bytes and then
  fails, 5 bytes have been copied and \<open>ReadCount\<close> is what it was. (When the call ends
  at the end of the stream, the 5 bytes are counted.)
\<close>

theorem CopyData_drops_count_on_error:
  "CopyData [(5, Some ReadFailed)] other 0 = Some (other, 5)
   \<and> CopyData [(5, Some WriteFailed)] other 0 = Some (other, 5)
   \<and> CopyData [(5, None), (0, None)] other 0
       = Some (other\<lparr>ReadCount := ReadCount other + 5\<rparr>, 5)"
  by simp

end
